theory Spec2Isabelle
  imports
    Main
    "HOL-Library.Multiset"
    "HOL-Library.Sublist"
    "HOL-Library.Char_ord"
    "HOL-Library.List_Lexorder"
begin

section \<open>Reference-post retrieval: the class FewShotPosts of reference_posts.py\<close>

text \<open>
  The development embeds \<^verbatim>\<open>FewShotPosts\<close>: the loader (\<^verbatim>\<open>__init__\<close>, \<^verbatim>\<open>load_posts\<close>),
  the length classifier (\<^verbatim>\<open>categorize_length\<close>), the tag index (\<^verbatim>\<open>get_tags\<close>) and the
  selector (\<^verbatim>\<open>get_filtered_posts\<close>, \<^verbatim>\<open>get_top_engaging_posts\<close>).

  The code works on Python values inside a pandas DataFrame. What the model keeps of them:
  \<^item> a Python value is \<open>None\<close>, \<open>nan\<close> (the marker pandas puts in a cell that has no value),
    a boolean, an integer, a string (its UTF-8 bytes) or a list of such values. Floating-point
    numbers other than \<open>nan\<close> are not modelled, and integers are unbounded as in Python.
    pandas keeps a numeric column in 64-bit cells, of integers or, as soon as one cell of
    the column has no number, of floating-point numbers: either holds an integer of
    magnitude up to \<open>2\<^sup>5\<^sup>3\<close> exactly, and the model reads such an integer itself;
  \<^item> the corpus file holds a JSON array of objects, as section 6 of the specification fixes
    it. An object whose values are themselves objects is not modelled (pandas would spread
    it over dotted columns);
  \<^item> two things are left to the libraries and enter as parameters: the number pandas reads
    from a cell that the model does not read itself, that is from a string and from an
    integer beyond \<open>2\<^sup>5\<^sup>3\<close> in magnitude (\<open>str_to_num\<close>), and the order in which Python
    iterates over a set of strings (\<open>set_order\<close>).
\<close>

subsection \<open>Python values, the corpus file, the table\<close>

datatype pyval =
    PNone
  | PNaN
  | PBool bool
  | PInt int
  | PStr string
  | PList "pyval list"

text \<open>A post is the dictionary \<^verbatim>\<open>json.load\<close> builds for one object, listed key by key.\<close>

type_synonym post = "(string \<times> pyval) list"

datatype file_body = NotJson | Json "post list"

datatype corpus_file = NoSuchFile | Unreadable | Readable file_body

text \<open>
  A cell of a numeric column after \<^verbatim>\<open>pd.to_numeric(..., errors='coerce')\<close>: no number,
  a finite number (the integer that \<^verbatim>\<open>int()\<close> and \<^verbatim>\<open>astype(int)\<close> read from it), or an
  infinity, which neither \<^verbatim>\<open>int()\<close> nor \<^verbatim>\<open>astype(int)\<close> accepts.
\<close>

datatype numeric = NaN | Num int | NonFinite

text \<open>
  \<open>str_to_num\<close> is given the name of the column, all the cells of the column and the cell
  to read: the type pandas chooses for a column, and with it the number a cell ends as,
  depends on every cell of the column, and the two numeric columns are put to different
  uses.
\<close>

record pandas_env =
  str_to_num :: "string \<Rightarrow> pyval list \<Rightarrow> pyval \<Rightarrow> numeric"
  set_order :: "string list \<Rightarrow> string list"

datatype exn = FileNotFoundError | OSError | OverflowError | IntCastingNaNError

text \<open>
  One row of \<^verbatim>\<open>self.df\<close>, with the six columns the class reads and writes
  (\<open>r_length\<close> is the column \<^verbatim>\<open>'length'\<close>); other columns of the file are never read.
\<close>

record row =
  r_text :: pyval
  r_line_count :: numeric
  r_tags :: pyval
  r_language :: pyval
  r_length :: string
  r_engagement :: int

record dataframe =
  columns :: "string list"
  rows :: "row list"

record few_shot_posts =
  df :: dataframe
  unique_tags :: "string list"

text \<open>A record as \<^verbatim>\<open>to_dict(orient='records')\<close> returns it, with its four keys.\<close>

record post_dict =
  d_text :: pyval
  d_tags :: pyval
  d_length :: string
  d_engagement :: int

subsection \<open>The pandas and Python operations the class calls\<close>

text \<open>\<^verbatim>\<open>pd.DataFrame(columns=['text', 'line_count', 'tags', 'language', 'length', 'engagement'])\<close>\<close>

definition empty_frame :: dataframe where
  "empty_frame =
     \<lparr>columns = [''text'', ''line_count'', ''tags'', ''language'', ''length'', ''engagement''],
      rows = []\<rparr>"

text \<open>\<^verbatim>\<open>df.empty\<close>: an axis of length 0.\<close>

definition frame_empty :: "dataframe \<Rightarrow> bool" where
  "frame_empty d = (rows d = [] \<or> columns d = [])"

text \<open>The columns of \<^verbatim>\<open>pd.json_normalize(posts)\<close>: the keys of the posts, each at its first place.\<close>

definition add_column :: "string list \<Rightarrow> string \<Rightarrow> string list" where
  "add_column cols c = (if c \<in> set cols then cols else cols @ [c])"

definition json_normalize_columns :: "post list \<Rightarrow> string list" where
  "json_normalize_columns posts = foldl add_column [] (concat (map (map fst) posts))"

text \<open>The cell of a post in a column: \<open>nan\<close> where the post has no such key.\<close>

definition cell :: "post \<Rightarrow> string \<Rightarrow> pyval" where
  "cell p k = (case map_of p k of None \<Rightarrow> PNaN | Some v \<Rightarrow> v)"

text \<open>The cells of one column of the frame, a \<open>nan\<close> where a post has no such key.\<close>

definition column_cells :: "post list \<Rightarrow> string \<Rightarrow> pyval list" where
  "column_cells posts k = map (\<lambda>p. cell p k) posts"

text \<open>
  \<^verbatim>\<open>pd.to_numeric(..., errors='coerce')\<close> on one cell of the column \<open>name\<close> with the cells
  \<open>col\<close>. An integer of magnitude up to \<open>2\<^sup>5\<^sup>3\<close> is the same number in a column of 64-bit
  integers and in one of 64-bit floating-point numbers. A larger one is rounded in a
  floating-point column and may not fit a 64-bit integer at all: what becomes of it is
  left to \<open>str_to_num\<close>, as is the reading of a string.
\<close>

fun to_numeric :: "pandas_env \<Rightarrow> string \<Rightarrow> pyval list \<Rightarrow> pyval \<Rightarrow> numeric" where
  "to_numeric E name col PNone = NaN"
| "to_numeric E name col PNaN = NaN"
| "to_numeric E name col (PBool b) = Num (if b then 1 else 0)"
| "to_numeric E name col (PInt n) =
     (if \<bar>n\<bar> \<le> 2 ^ 53 then Num n else str_to_num E name col (PInt n))"
| "to_numeric E name col (PStr s) = str_to_num E name col (PStr s)"
| "to_numeric E name col (PList xs) = NaN"

text \<open>\<^verbatim>\<open>.fillna(v)\<close> on one cell: \<open>None\<close> and \<open>nan\<close> are the missing values.\<close>

definition fillna :: "pyval \<Rightarrow> pyval \<Rightarrow> pyval" where
  "fillna v x = (case x of PNone \<Rightarrow> v | PNaN \<Rightarrow> v | _ \<Rightarrow> x)"

text \<open>
  The cast to a 64-bit signed integer that \<^verbatim>\<open>astype(int)\<close> ends with. A number in the
  range is kept. The number \<open>str_to_num\<close> returns for the engagement column stands for
  the value pandas ends with, which is in the range; the reduction modulo \<open>2\<^sup>6\<^sup>4\<close>
  (what the cast does between integer types) keeps every stored value in the range
  whatever \<open>str_to_num\<close> returns.
\<close>

definition astype_int64 :: "int \<Rightarrow> int" where
  "astype_int64 n = (n + 2 ^ 63) mod 2 ^ 64 - 2 ^ 63"

text \<open>\<^verbatim>\<open>.fillna(0).astype(int)\<close> on one numeric cell; pandas refuses to cast an infinity.\<close>

fun fillna0_astype_int :: "numeric \<Rightarrow> exn + int" where
  "fillna0_astype_int NaN = Inr 0"
| "fillna0_astype_int (Num n) = Inr (astype_int64 n)"
| "fillna0_astype_int NonFinite = Inl IntCastingNaNError"

text \<open>\<^verbatim>\<open>Series.apply(f)\<close> with an \<open>f\<close> that may raise: the first exception ends the call.\<close>

fun apply_col :: "('a \<Rightarrow> exn + 'b) \<Rightarrow> 'a list \<Rightarrow> exn + 'b list" where
  "apply_col f [] = Inr []"
| "apply_col f (x # xs) =
     (case f x of
        Inl e \<Rightarrow> Inl e
      | Inr y \<Rightarrow> (case apply_col f xs of Inl e \<Rightarrow> Inl e | Inr ys \<Rightarrow> Inr (y # ys)))"

text \<open>
  \<^verbatim>\<open>str.lower()\<close>, on the bytes of the string. Only the letters A to Z matter to the one
  comparison the class makes (with \<^verbatim>\<open>'english'\<close>): no character outside ASCII
  lower-cases to one of the letters of that word.
\<close>

definition lower_char :: "char \<Rightarrow> char" where
  "lower_char c =
     (if CHR ''A'' \<le> c \<and> c \<le> CHR ''Z'' then char_of (of_char c + (32::nat)) else c)"

definition str_lower :: "string \<Rightarrow> string" where
  "str_lower s = map lower_char s"

text \<open>
  \<^verbatim>\<open>.astype(str).str.lower() == 'english'\<close> on one cell. The text Python prints for
  \<open>None\<close>, \<open>nan\<close>, a boolean, an integer or a list is never that word.
\<close>

fun lower_is_english :: "pyval \<Rightarrow> bool" where
  "lower_is_english (PStr s) = (str_lower s = ''english'')"
| "lower_is_english _ = False"

text \<open>\<^verbatim>\<open>isinstance(tags, list) and tag in tags\<close>, for a string \<open>tag\<close>.\<close>

fun tag_in :: "string \<Rightarrow> pyval \<Rightarrow> bool" where
  "tag_in tag (PList ts) = (PStr tag \<in> set ts)"
| "tag_in tag _ = False"

text \<open>\<^verbatim>\<open>[tag for tag in sublist if isinstance(tag, str)]\<close>\<close>

fun str_entries :: "pyval list \<Rightarrow> string list" where
  "str_entries [] = []"
| "str_entries (PStr s # xs) = s # str_entries xs"
| "str_entries (_ # xs) = str_entries xs"

fun sublist_tags :: "pyval \<Rightarrow> string list" where
  "sublist_tags (PList ts) = str_entries ts"
| "sublist_tags _ = []"

text \<open>
  \<^verbatim>\<open>sorted(xs, key=key, reverse=True)\<close>: CPython reverses the list, sorts it stably in
  ascending order and reverses the result.
\<close>

definition sorted_reverse :: "('a \<Rightarrow> int) \<Rightarrow> 'a list \<Rightarrow> 'a list" where
  "sorted_reverse key xs = rev (sort_key key (rev xs))"

text \<open>\<^verbatim>\<open>xs[:n]\<close>: a negative \<open>n\<close> counts from the end.\<close>

definition slice_to :: "'a list \<Rightarrow> int \<Rightarrow> 'a list" where
  "slice_to xs n =
     (if 0 \<le> n then take (nat n) xs else take (nat (int (length xs) + n)) xs)"

subsection \<open>categorize_length\<close>

text \<open>
  \<^verbatim>\<open>categorize_length\<close> on a cell of the numeric column (\<open>cnt\<close> is the source's
  \<^verbatim>\<open>count\<close>). \<^verbatim>\<open>pd.isna\<close> is the case \<open>NaN\<close>. \<^verbatim>\<open>int()\<close> of a finite number does not
  raise, so the branch \<^verbatim>\<open>except (ValueError, TypeError)\<close> is not taken on such a cell;
  \<^verbatim>\<open>int()\<close> of an infinity raises \<^verbatim>\<open>OverflowError\<close>, which that branch does not catch.
\<close>

fun categorize_length :: "numeric \<Rightarrow> exn + string" where
  "categorize_length NaN = Inr ''Unknown''"
| "categorize_length (Num cnt) =
     Inr (if cnt < 5 then ''Short''
          else if 5 \<le> cnt \<and> cnt \<le> 10 then ''Medium''
          else ''Long'')"
| "categorize_length NonFinite = Inl OverflowError"

subsection \<open>load_posts and the constructor\<close>

definition line_count_cell ::
    "pandas_env \<Rightarrow> string list \<Rightarrow> post list \<Rightarrow> post \<Rightarrow> numeric" where
  "line_count_cell E cols posts p =
     (if ''line_count'' \<notin> set cols then NaN
      else to_numeric E ''line_count'' (column_cells posts ''line_count'')
             (cell p ''line_count''))"

definition length_cell :: "string list \<Rightarrow> numeric \<Rightarrow> exn + string" where
  "length_cell cols lc =
     (if ''line_count'' \<notin> set cols then Inr ''Unknown'' else categorize_length lc)"

definition tags_cell :: "string list \<Rightarrow> post \<Rightarrow> pyval" where
  "tags_cell cols p =
     (if ''tags'' \<notin> set cols then PList []
      else (case cell p ''tags'' of PList ts \<Rightarrow> PList ts | _ \<Rightarrow> PList []))"

definition language_cell :: "string list \<Rightarrow> post \<Rightarrow> pyval" where
  "language_cell cols p =
     (if ''language'' \<notin> set cols then PStr ''English''
      else fillna (PStr ''English'') (cell p ''language''))"

definition text_cell :: "string list \<Rightarrow> post \<Rightarrow> pyval" where
  "text_cell cols p = (if ''text'' \<notin> set cols then PStr [] else cell p ''text'')"

definition engagement_cell ::
    "pandas_env \<Rightarrow> string list \<Rightarrow> post list \<Rightarrow> post \<Rightarrow> exn + int" where
  "engagement_cell E cols posts p =
     (if ''engagement'' \<notin> set cols then Inr 0
      else fillna0_astype_int
             (to_numeric E ''engagement'' (column_cells posts ''engagement'')
                (cell p ''engagement'')))"

definition final_columns :: "string list \<Rightarrow> string list" where
  "final_columns cols =
     foldl add_column cols
       [''line_count'', ''length'', ''tags'', ''language'', ''text'', ''engagement'']"

definition make_row ::
    "pandas_env \<Rightarrow> string list \<Rightarrow> post list \<Rightarrow> post \<times> string \<times> int \<Rightarrow> row" where
  "make_row E cols posts t =
     (case t of (p, len, eng) \<Rightarrow>
        \<lparr>r_text = text_cell cols p,
         r_line_count = line_count_cell E cols posts p,
         r_tags = tags_cell cols p,
         r_language = language_cell cols p,
         r_length = len,
         r_engagement = eng\<rparr>)"

text \<open>The frame once every column is cleaned: one row for each post, in the order of the file.\<close>

definition loaded_frame :: "pandas_env \<Rightarrow> post list \<Rightarrow> string list \<Rightarrow> int list \<Rightarrow> dataframe" where
  "loaded_frame E posts lens engs =
     \<lparr>columns = final_columns (json_normalize_columns posts),
      rows = map (make_row E (json_normalize_columns posts) posts)
               (zip posts (zip lens engs))\<rparr>"

text \<open>
  \<^verbatim>\<open>load_posts\<close>. \<^verbatim>\<open>open\<close> raises for a file that is missing or cannot be read; a
  \<^verbatim>\<open>JSONDecodeError\<close> is caught and read as no posts; the columns are then cleaned in the
  order of the source: line count and length, tags and the tag index, language, text,
  engagement. Two of them can raise, on an infinity: \<^verbatim>\<open>categorize_length\<close> under
  \<^verbatim>\<open>apply\<close>, and \<^verbatim>\<open>astype(int)\<close>. The \<^verbatim>\<open>try\<close> around the tag index guards a
  comprehension over lists and a sort of strings, which do not raise.
\<close>

definition load_posts :: "pandas_env \<Rightarrow> corpus_file \<Rightarrow> exn + few_shot_posts" where
  "load_posts E f =
     (case f of
        NoSuchFile \<Rightarrow> Inl FileNotFoundError
      | Unreadable \<Rightarrow> Inl OSError
      | Readable body \<Rightarrow>
          (let posts = (case body of NotJson \<Rightarrow> [] | Json ps \<Rightarrow> ps) in
           if posts = [] then Inr \<lparr>df = empty_frame, unique_tags = []\<rparr>
           else
             (let cols = json_normalize_columns posts in
              case apply_col (\<lambda>p. length_cell cols (line_count_cell E cols posts p)) posts of
                Inl e \<Rightarrow> Inl e
              | Inr lens \<Rightarrow>
                  (let all_tags = concat (map (\<lambda>p. sublist_tags (tags_cell cols p)) posts);
                       uniq = (if ''tags'' \<notin> set cols then []
                               else sort (set_order E all_tags))
                   in case apply_col (engagement_cell E cols posts) posts of
                        Inl e \<Rightarrow> Inl e
                      | Inr engs \<Rightarrow>
                          Inr \<lparr>df = loaded_frame E posts lens engs,
                               unique_tags = uniq\<rparr>))))"

text \<open>
  \<^verbatim>\<open>__init__\<close>: whatever \<^verbatim>\<open>load_posts\<close> raises is caught, and the object is left with the
  empty frame and no tags. (\<^verbatim>\<open>self.df\<close> is \<open>None\<close> only while the constructor runs.)
\<close>

definition init :: "pandas_env \<Rightarrow> corpus_file \<Rightarrow> few_shot_posts" where
  "init E f =
     (case load_posts E f of
        Inr self \<Rightarrow> self
      | Inl FileNotFoundError \<Rightarrow> \<lparr>df = empty_frame, unique_tags = []\<rparr>
      | Inl _ \<Rightarrow> \<lparr>df = empty_frame, unique_tags = []\<rparr>)"

subsection \<open>get_tags, get_filtered_posts, get_top_engaging_posts\<close>

definition get_tags :: "few_shot_posts \<Rightarrow> string list" where
  "get_tags self = unique_tags self"

definition required_cols :: "string list" where
  "required_cols = [''tags'', ''language'', ''length'', ''text'', ''engagement'']"

definition to_dict :: "row \<Rightarrow> post_dict" where
  "to_dict r =
     \<lparr>d_text = r_text r, d_tags = r_tags r, d_length = r_length r,
      d_engagement = r_engagement r\<rparr>"

text \<open>
  \<^verbatim>\<open>get_filtered_posts\<close>: the three masks of the source, taken row by row, then the
  four keys of each record that passes. (On the columns the loader leaves, none of the
  three masks raises, so the \<^verbatim>\<open>except\<close> branch is not taken.)
\<close>

definition get_filtered_posts :: "few_shot_posts \<Rightarrow> string \<Rightarrow> string \<Rightarrow> post_dict list" where
  "get_filtered_posts self len tag =
     (if frame_empty (df self) then []
      else if \<not> list_all (\<lambda>col. col \<in> set (columns (df self))) required_cols then []
      else map to_dict
             (filter (\<lambda>r. tag_in tag (r_tags r) \<and> lower_is_english (r_language r)
                           \<and> r_length r = len)
                (rows (df self))))"

definition get_top_engaging_posts ::
    "few_shot_posts \<Rightarrow> string \<Rightarrow> string \<Rightarrow> int \<Rightarrow> post_dict list" where
  "get_top_engaging_posts self len tag n =
     (if frame_empty (df self) \<or> ''engagement'' \<notin> set (columns (df self)) then []
      else
        (let filtered_posts = get_filtered_posts self len tag in
         if filtered_posts = [] then []
         else slice_to (sorted_reverse d_engagement filtered_posts) n))"


subsection \<open>The filter predicate in the words of the specification\<close>

text \<open>
  Section 4.4 of the specification: a record passes iff the tag is a member of its tags
  list, its language compared without regard to case is \<^verbatim>\<open>english\<close>, and its length
  category is the requested one. This definition follows the specification, not the code;
  the selection theorem compares the two.
\<close>

definition spec_passes :: "string \<Rightarrow> string \<Rightarrow> row \<Rightarrow> bool" where
  "spec_passes len tag r \<longleftrightarrow>
     (\<exists>ts. r_tags r = PList ts \<and> PStr tag \<in> set ts) \<and>
     (\<exists>s. r_language r = PStr s \<and> str_lower s = ''english'') \<and>
     r_length r = len"

text \<open>
  What Python guarantees of \<^verbatim>\<open>list(set(xs))\<close>, whatever the hash seed of the process:
  every element of \<open>xs\<close>, once.
\<close>

definition set_order_ok :: "pandas_env \<Rightarrow> bool" where
  "set_order_ok E \<longleftrightarrow> (\<forall>xs. distinct (set_order E xs) \<and> set (set_order E xs) = set xs)"

subsection \<open>Example inputs\<close>

text \<open>
  Two environments that differ in the order of set iteration; the examples keep strings
  and integers beyond \<open>2\<^sup>5\<^sup>3\<close> out of the numeric columns, so \<open>str_to_num\<close> is never
  consulted.
\<close>

definition example_env :: pandas_env where
  "example_env = \<lparr>str_to_num = (\<lambda>name col v. NaN), set_order = remdups\<rparr>"

definition example_env_rev :: pandas_env where
  "example_env_rev =
     \<lparr>str_to_num = (\<lambda>name col v. NaN), set_order = (\<lambda>xs. rev (remdups xs))\<rparr>"

text \<open>
  The corpus of the specification's concrete scenario (posts A and B), with a tie on the
  engagement (C), a post of another length (D) and a post in another language (F).
\<close>

definition example_posts :: "post list" where
  "example_posts =
     [[(''text'', PStr ''A''), (''line_count'', PInt 3), (''tags'', PList [PStr ''AI'']),
       (''language'', PStr ''English''), (''engagement'', PInt 10)],
      [(''text'', PStr ''B''), (''line_count'', PInt 4), (''tags'', PList [PStr ''AI'']),
       (''language'', PStr ''English''), (''engagement'', PInt 50)],
      [(''text'', PStr ''C''), (''line_count'', PInt 2),
       (''tags'', PList [PStr ''ML'', PStr ''AI'']),
       (''language'', PStr ''ENGLISH''), (''engagement'', PInt 10)],
      [(''text'', PStr ''D''), (''line_count'', PInt 7), (''tags'', PList [PStr ''AI'']),
       (''language'', PStr ''English''), (''engagement'', PInt 99)],
      [(''text'', PStr ''F''), (''line_count'', PInt 3), (''tags'', PList [PStr ''AI'']),
       (''language'', PStr ''French''), (''engagement'', PInt 70)]]"

definition example_corpus :: corpus_file where
  "example_corpus = Readable (Json example_posts)"

text \<open>
  A corpus with untidy cells: a scalar where the tags list should be, a tags list with an
  entry that is no string, a null and a negative engagement, and a post with no engagement.
\<close>

definition untidy_posts :: "post list" where
  "untidy_posts =
     [[(''text'', PStr ''S''), (''line_count'', PInt 3), (''tags'', PStr ''AI''),
       (''engagement'', PNone)],
      [(''text'', PStr ''M''), (''line_count'', PInt 3),
       (''tags'', PList [PInt 1, PStr ''AI'']), (''engagement'', PInt (- 5))],
      [(''text'', PStr ''N''), (''line_count'', PInt 3), (''tags'', PList [PStr ''AI''])]]"

section \<open>Properties\<close>

subsection \<open>Columns that may raise\<close>

lemma apply_col_length: "apply_col f xs = Inr ys \<Longrightarrow> length ys = length xs"
  by (induction xs arbitrary: ys) (auto split: sum.splits)

lemma apply_col_nth:
  "apply_col f xs = Inr ys \<Longrightarrow> i < length xs \<Longrightarrow> f (xs ! i) = Inr (ys ! i)"
proof (induction xs arbitrary: ys i)
  case Nil
  then show ?case by simp
next
  case (Cons x xs)
  then show ?case by (cases i) (auto split: sum.splits)
qed

subsection \<open>Columns of the loaded frame\<close>

lemma set_foldl_add_column: "set (foldl add_column acc ks) = set acc \<union> set ks"
  by (induction ks arbitrary: acc) (auto simp: add_column_def)

lemma set_json_normalize_columns:
  "set (json_normalize_columns posts) = (\<Union>p\<in>set posts. fst ` set p)"
  by (simp add: json_normalize_columns_def set_foldl_add_column)

lemma absent_column_no_key:
  "k \<notin> set (json_normalize_columns posts) \<Longrightarrow> p \<in> set posts \<Longrightarrow> map_of p k = None"
  by (auto simp: set_json_normalize_columns map_of_eq_None_iff)

lemma final_columns_required:
  "list_all (\<lambda>col. col \<in> set (final_columns cols)) required_cols"
  by (simp add: final_columns_def required_cols_def add_column_def)

lemma final_columns_engagement: "''engagement'' \<in> set (final_columns cols)"
  by (simp add: final_columns_def add_column_def)

lemma final_columns_nonempty: "final_columns cols \<noteq> []"
  using final_columns_engagement [of cols] by auto

subsection \<open>What load_posts and the constructor return\<close>

lemma load_posts_no_posts:
  "load_posts E (Readable (Json [])) = Inr \<lparr>df = empty_frame, unique_tags = []\<rparr>"
  by (simp add: load_posts_def)

lemma load_posts_some_posts:
  assumes "load_posts E (Readable (Json posts)) = Inr self" and "posts \<noteq> []"
  shows "\<exists>lens engs.
           apply_col (\<lambda>p. length_cell (json_normalize_columns posts)
                              (line_count_cell E (json_normalize_columns posts) posts p)) posts
             = Inr lens \<and>
           apply_col (engagement_cell E (json_normalize_columns posts) posts) posts = Inr engs \<and>
           df self = loaded_frame E posts lens engs"
  using assms
  by (auto simp: load_posts_def Let_def split: sum.splits)

lemma load_posts_unique_tags:
  assumes "load_posts E (Readable (Json posts)) = Inr self" and "posts \<noteq> []"
  shows "unique_tags self =
           (if ''tags'' \<notin> set (json_normalize_columns posts) then []
            else sort (set_order E
                   (concat (map (\<lambda>p. sublist_tags (tags_cell (json_normalize_columns posts) p))
                      posts))))"
  using assms
  by (auto simp: load_posts_def Let_def split: sum.splits)

lemma load_posts_Inr:
  assumes "load_posts E f = Inr self"
  shows "self = \<lparr>df = empty_frame, unique_tags = []\<rparr> \<or>
         (\<exists>posts. f = Readable (Json posts) \<and> posts \<noteq> [])"
  using assms
  by (auto simp: load_posts_def Let_def
      split: corpus_file.splits file_body.splits sum.splits if_splits)

lemma init_cases:
  "init E f = \<lparr>df = empty_frame, unique_tags = []\<rparr> \<or>
   (\<exists>posts. f = Readable (Json posts) \<and> posts \<noteq> [] \<and>
      load_posts E (Readable (Json posts)) = Inr (init E f))"
proof (cases "load_posts E f")
  case (Inl e)
  then show ?thesis by (cases e) (simp_all add: init_def)
next
  case (Inr self)
  then have "init E f = self" by (simp add: init_def)
  with Inr load_posts_Inr [OF Inr] show ?thesis by auto
qed

lemma loaded_frame_length:
  "length lens = length posts \<Longrightarrow> length engs = length posts \<Longrightarrow>
   length (rows (loaded_frame E posts lens engs)) = length posts"
  by (simp add: loaded_frame_def)

lemma loaded_frame_nth:
  "length lens = length posts \<Longrightarrow> length engs = length posts \<Longrightarrow> i < length posts \<Longrightarrow>
   rows (loaded_frame E posts lens engs) ! i =
     make_row E (json_normalize_columns posts) posts (posts ! i, lens ! i, engs ! i)"
  by (simp add: loaded_frame_def)

lemma map_r_tags_loaded_frame:
  "length lens = length posts \<Longrightarrow> length engs = length posts \<Longrightarrow>
   map r_tags (rows (loaded_frame E posts lens engs)) =
     map (tags_cell (json_normalize_columns posts)) posts"
  by (auto simp: loaded_frame_def make_row_def list_eq_iff_nth_eq)

lemma init_required_cols:
  "list_all (\<lambda>col. col \<in> set (columns (df (init E f)))) required_cols"
proof -
  consider (empty) "init E f = \<lparr>df = empty_frame, unique_tags = []\<rparr>"
    | (loaded) posts where "posts \<noteq> []" "load_posts E (Readable (Json posts)) = Inr (init E f)"
    using init_cases [of E f] by blast
  then show ?thesis
  proof cases
    case empty
    then show ?thesis by (simp add: empty_frame_def required_cols_def)
  next
    case loaded
    from load_posts_some_posts [OF loaded(2,1)] show ?thesis
      by (auto simp: loaded_frame_def final_columns_required)
  qed
qed

lemma init_frame_not_empty:
  "rows (df (init E f)) \<noteq> [] \<Longrightarrow> \<not> frame_empty (df (init E f))"
proof -
  assume rs: "rows (df (init E f)) \<noteq> []"
  consider (empty) "init E f = \<lparr>df = empty_frame, unique_tags = []\<rparr>"
    | (loaded) posts where "posts \<noteq> []" "load_posts E (Readable (Json posts)) = Inr (init E f)"
    using init_cases [of E f] by blast
  then show ?thesis
  proof cases
    case empty
    with rs show ?thesis by (simp add: empty_frame_def)
  next
    case loaded
    from load_posts_some_posts [OF loaded(2,1)] rs show ?thesis
      by (auto simp: loaded_frame_def frame_empty_def final_columns_nonempty)
  qed
qed

lemma tags_cell_source:
  "p \<in> set posts \<Longrightarrow>
   tags_cell (json_normalize_columns posts) p =
     (case map_of p ''tags'' of Some (PList ts) \<Rightarrow> PList ts | _ \<Rightarrow> PList [])"
  by (auto simp: tags_cell_def cell_def dest: absent_column_no_key
      split: option.splits pyval.splits)

lemma astype_int64_in_range:
  "- (2 ^ 63) \<le> n \<Longrightarrow> n < 2 ^ 63 \<Longrightarrow> astype_int64 n = n"
  by (simp add: astype_int64_def)

lemma astype_int64_range: "- (2 ^ 63) \<le> astype_int64 n \<and> astype_int64 n < 2 ^ 63"
proof -
  have "0 \<le> (n + 2 ^ 63) mod 2 ^ 64" "(n + 2 ^ 63) mod 2 ^ 64 < (2 ^ 64 :: int)"
    by simp_all
  then show ?thesis by (simp add: astype_int64_def)
qed

lemma astype_int64_exact: "\<bar>n\<bar> \<le> 2 ^ 53 \<Longrightarrow> astype_int64 n = n"
  by (rule astype_int64_in_range) simp_all

lemma engagement_cell_source:
  "p \<in> set posts \<Longrightarrow> engagement_cell E (json_normalize_columns posts) posts p = Inr v \<Longrightarrow>
   v = (case map_of p ''engagement'' of
          Some (PInt n) \<Rightarrow>
            (if \<bar>n\<bar> \<le> 2 ^ 53 then n
             else (case str_to_num E ''engagement'' (column_cells posts ''engagement'') (PInt n) of
                     Num m \<Rightarrow> astype_int64 m
                   | _ \<Rightarrow> 0))
        | Some (PBool b) \<Rightarrow> (if b then 1 else 0)
        | Some (PStr s) \<Rightarrow>
            (case str_to_num E ''engagement'' (column_cells posts ''engagement'') (PStr s) of
               Num m \<Rightarrow> astype_int64 m
             | _ \<Rightarrow> 0)
        | _ \<Rightarrow> 0)"
  by (auto simp: engagement_cell_def cell_def astype_int64_exact astype_int64_in_range
      dest: absent_column_no_key
      split: option.splits pyval.splits numeric.splits if_splits)

lemma engagement_cell_range:
  "engagement_cell E cols posts p = Inr v \<Longrightarrow> - (2 ^ 63) \<le> v \<and> v < 2 ^ 63"
  using astype_int64_range
  by (cases "to_numeric E ''engagement'' (column_cells posts ''engagement'')
               (cell p ''engagement'')")
     (auto simp: engagement_cell_def split: if_splits)

lemma load_posts_rows:
  assumes "load_posts E (Readable (Json posts)) = Inr self"
  shows "length (rows (df self)) = length posts"
    and "i < length posts \<Longrightarrow>
           r_tags (rows (df self) ! i) = tags_cell (json_normalize_columns posts) (posts ! i)"
    and "i < length posts \<Longrightarrow>
           engagement_cell E (json_normalize_columns posts) posts (posts ! i)
             = Inr (r_engagement (rows (df self) ! i))"
proof -
  have "length (rows (df self)) = length posts \<and>
     (i < length posts \<longrightarrow>
        r_tags (rows (df self) ! i) = tags_cell (json_normalize_columns posts) (posts ! i)) \<and>
     (i < length posts \<longrightarrow>
        engagement_cell E (json_normalize_columns posts) posts (posts ! i)
          = Inr (r_engagement (rows (df self) ! i)))"
  proof (cases "posts = []")
    case True
    with assms have "self = \<lparr>df = empty_frame, unique_tags = []\<rparr>"
      by (simp add: load_posts_no_posts)
    with True show ?thesis by (simp add: empty_frame_def)
  next
    case False
    from load_posts_some_posts [OF assms False] obtain lens engs where
      lens: "apply_col (\<lambda>p. length_cell (json_normalize_columns posts)
                               (line_count_cell E (json_normalize_columns posts) posts p)) posts
               = Inr lens"
      and engs: "apply_col (engagement_cell E (json_normalize_columns posts) posts) posts = Inr engs"
      and frame: "df self = loaded_frame E posts lens engs"
      by blast
    have l1: "length lens = length posts" using lens by (rule apply_col_length)
    have l2: "length engs = length posts" using engs by (rule apply_col_length)
    show ?thesis
      using apply_col_nth [OF engs]
      by (simp add: frame loaded_frame_length [OF l1 l2] loaded_frame_nth [OF l1 l2]
          make_row_def)
  qed
  then show "length (rows (df self)) = length posts"
    and "i < length posts \<Longrightarrow>
           r_tags (rows (df self) ! i) = tags_cell (json_normalize_columns posts) (posts ! i)"
    and "i < length posts \<Longrightarrow>
           engagement_cell E (json_normalize_columns posts) posts (posts ! i)
             = Inr (r_engagement (rows (df self) ! i))"
    by blast+
qed

subsection \<open>Sorting and slicing\<close>

lemma mset_sorted_reverse: "mset (sorted_reverse key xs) = mset xs"
  by (simp add: sorted_reverse_def)

lemma length_sorted_reverse: "length (sorted_reverse key xs) = length xs"
  by (simp add: sorted_reverse_def)

lemma set_sorted_reverse: "set (sorted_reverse key xs) = set xs"
  by (simp add: sorted_reverse_def)

lemma sorted_reverse_desc: "sorted (rev (map key (sorted_reverse key xs)))"
  by (simp add: sorted_reverse_def rev_map)

lemma sorted_reverse_stable:
  "filter (\<lambda>y. key y = k) (sorted_reverse key xs) = filter (\<lambda>y. key y = k) xs"
  by (simp add: sorted_reverse_def sort_key_stable flip: rev_filter)

lemma slice_to_prefix: "prefix (slice_to xs n) xs"
  by (simp add: slice_to_def take_is_prefix)

lemma slice_to_all: "int (length xs) \<le> n \<Longrightarrow> slice_to xs n = xs"
  by (simp add: slice_to_def)

lemma mset_slice_to_subset: "mset (slice_to xs n) \<subseteq># mset xs"
proof -
  obtain k where "slice_to xs n = take k xs"
    by (cases "0 \<le> n") (simp_all add: slice_to_def)
  moreover have "mset xs = mset (take k xs) + mset (drop k xs)"
    by (metis append_take_drop_id mset_append)
  ultimately show ?thesis by simp
qed

subsection \<open>The selector\<close>

lemma tag_in_iff: "tag_in tag v \<longleftrightarrow> (\<exists>ts. v = PList ts \<and> PStr tag \<in> set ts)"
  by (cases v) auto

lemma lower_is_english_iff:
  "lower_is_english v \<longleftrightarrow> (\<exists>s. v = PStr s \<and> str_lower s = ''english'')"
  by (cases v) auto

lemma spec_passes_code:
  "spec_passes len tag =
     (\<lambda>r. tag_in tag (r_tags r) \<and> lower_is_english (r_language r) \<and> r_length r = len)"
  by (rule ext) (simp add: spec_passes_def tag_in_iff lower_is_english_iff)

lemma get_filtered_posts_init:
  "get_filtered_posts (init E f) len tag =
     map to_dict (filter (spec_passes len tag) (rows (df (init E f))))"
proof (cases "rows (df (init E f)) = []")
  case True
  then show ?thesis by (simp add: get_filtered_posts_def frame_empty_def)
next
  case False
  then show ?thesis
    by (simp add: get_filtered_posts_def init_frame_not_empty init_required_cols
        spec_passes_code)
qed

lemma get_top_engaging_posts_eq:
  "get_top_engaging_posts self len tag n =
     slice_to (sorted_reverse d_engagement (get_filtered_posts self len tag)) n"
  by (auto simp: get_top_engaging_posts_def Let_def slice_to_def sorted_reverse_def
      get_filtered_posts_def required_cols_def)

lemma get_top_engaging_posts_empty_frame:
  "df self = empty_frame \<Longrightarrow> get_top_engaging_posts self len tag n = []"
  by (simp add: get_top_engaging_posts_def frame_empty_def empty_frame_def)

lemma get_top_engaging_posts_tagged:
  assumes "d \<in> set (get_top_engaging_posts self len tag n)"
  shows "\<exists>ts. d_tags d = PList ts \<and> PStr tag \<in> set ts"
proof -
  have "set (get_top_engaging_posts self len tag n)
          \<subseteq> set (sorted_reverse d_engagement (get_filtered_posts self len tag))"
    unfolding get_top_engaging_posts_eq by (rule set_mono_prefix) (rule slice_to_prefix)
  with assms have "d \<in> set (get_filtered_posts self len tag)"
    by (auto simp: set_sorted_reverse)
  then show ?thesis
    by (auto simp: get_filtered_posts_def to_dict_def tag_in_iff split: if_splits)
qed

subsection \<open>The tag index\<close>

lemma set_str_entries: "set (str_entries ts) = {t. PStr t \<in> set ts}"
  by (induction ts rule: str_entries.induct) auto

lemma set_sublist_tags: "set (sublist_tags v) = {t. \<exists>ts. v = PList ts \<and> PStr t \<in> set ts}"
  by (cases v) (auto simp: set_str_entries)

lemma unique_tags_init:
  "unique_tags (init E f) = [] \<and> rows (df (init E f)) = [] \<or>
   unique_tags (init E f)
     = sort (set_order E (concat (map (\<lambda>r. sublist_tags (r_tags r)) (rows (df (init E f)))))) \<or>
   unique_tags (init E f) = [] \<and> (\<forall>r\<in>set (rows (df (init E f))). r_tags r = PList [])"
proof -
  consider (empty) "init E f = \<lparr>df = empty_frame, unique_tags = []\<rparr>"
    | (loaded) posts where "posts \<noteq> []" "load_posts E (Readable (Json posts)) = Inr (init E f)"
    using init_cases [of E f] by blast
  then show ?thesis
  proof cases
    case empty
    then show ?thesis by (simp add: empty_frame_def)
  next
    case loaded
    let ?cols = "json_normalize_columns posts"
    from load_posts_some_posts [OF loaded(2,1)]
    obtain lens engs where
      lens: "apply_col (\<lambda>p. length_cell ?cols (line_count_cell E ?cols posts p)) posts
               = Inr lens"
      and engs: "apply_col (engagement_cell E ?cols posts) posts = Inr engs"
      and frame: "df (init E f) = loaded_frame E posts lens engs"
      by blast
    have uniq: "unique_tags (init E f) =
             (if ''tags'' \<notin> set ?cols then []
              else sort (set_order E
                     (concat (map (\<lambda>p. sublist_tags (tags_cell ?cols p)) posts))))"
      by (rule load_posts_unique_tags [OF loaded(2,1)])
    have l1: "length lens = length posts" using lens by (rule apply_col_length)
    have l2: "length engs = length posts" using engs by (rule apply_col_length)
    have tags: "map r_tags (rows (df (init E f))) = map (tags_cell ?cols) posts"
      by (simp add: frame map_r_tags_loaded_frame [OF l1 l2])
    have cc: "concat (map (\<lambda>r. sublist_tags (r_tags r)) (rows (df (init E f))))
              = concat (map (\<lambda>p. sublist_tags (tags_cell ?cols p)) posts)"
    proof -
      have "map (\<lambda>r. sublist_tags (r_tags r)) (rows (df (init E f)))
            = map sublist_tags (map r_tags (rows (df (init E f))))" by simp
      also have "\<dots> = map sublist_tags (map (tags_cell ?cols) posts)" by (simp only: tags)
      finally show ?thesis by (simp add: comp_def)
    qed
    show ?thesis
    proof (cases "''tags'' \<in> set ?cols")
      case True
      with uniq cc show ?thesis by simp
    next
      case False
      have "\<forall>r\<in>set (rows (df (init E f))). r_tags r = PList []"
      proof
        fix r assume "r \<in> set (rows (df (init E f)))"
        then have "r_tags r \<in> set (map r_tags (rows (df (init E f))))" by simp
        then have "r_tags r \<in> set (map (tags_cell ?cols) posts)" by (simp only: tags)
        with False show "r_tags r = PList []" by (auto simp: tags_cell_def)
      qed
      with uniq False show ?thesis by simp
    qed
  qed
qed

lemma sort_any_order:
  assumes "distinct xs" "set xs = A" "distinct ys" "set ys = A"
  shows "sort xs = sort (ys::string list)"
  using assms by (metis distinct_sort set_sort sorted_sort sorted_distinct_set_unique)

lemma load_posts_order_free:
  assumes "set_order_ok E" "set_order_ok E'" "str_to_num E' = str_to_num E"
  shows "load_posts E' f = load_posts E f"
proof -
  have num: "to_numeric E' name col v = to_numeric E name col v" for name col v
    using assms(3) by (cases v) simp_all
  have so: "sort (set_order E' xs) = sort (set_order E xs)" for xs
    using assms(1,2)
    by (intro sort_any_order [where A = "set xs"]) (simp_all add: set_order_ok_def)
  have lc: "line_count_cell E' = line_count_cell E"
    by (intro ext) (simp add: line_count_cell_def num)
  have en: "engagement_cell E' = engagement_cell E"
    by (intro ext) (simp add: engagement_cell_def num)
  have mr: "make_row E' = make_row E"
    by (intro ext) (simp add: make_row_def lc split: prod.splits)
  have lf: "loaded_frame E' = loaded_frame E"
    by (intro ext) (simp add: loaded_frame_def mr)
  show ?thesis
    by (simp add: load_posts_def lc en lf so
        cong: corpus_file.case_cong file_body.case_cong sum.case_cong if_cong)
qed

subsection \<open>The example inputs, evaluated\<close>

lemma example_env_ok: "set_order_ok example_env"
  by (simp add: set_order_ok_def example_env_def)

lemma example_env_rev_ok: "set_order_ok example_env_rev"
  by (simp add: set_order_ok_def example_env_rev_def)

lemma example_rows_length: "length (rows (df (init example_env example_corpus))) = 5"
  by code_simp

lemma example_short_ai_texts:
  "map d_text (get_top_engaging_posts (init example_env example_corpus) ''Short'' ''AI'' 5)
     = [PStr ''B'', PStr ''A'', PStr ''C'']"
  by code_simp

lemma untidy_load:
  "load_posts example_env (Readable (Json untidy_posts))
     = Inr (init example_env (Readable (Json untidy_posts)))"
  by code_simp

lemma untidy_posts_length: "length untidy_posts = 3"
  by (simp add: untidy_posts_def)

section \<open>The claims\<close>

subsection \<open>C1: the selection is exact\<close>

text \<open>
  C1. For every loaded table, every length, every tag and every \<open>n\<close>, what
  \<^verbatim>\<open>get_top_engaging_posts\<close> returns is made of records of the table that pass the filter
  of the specification (the tag is in the tags list by exact match, the language is
  \<^verbatim>\<open>english\<close> whatever its case, the length category is the requested one), each at most
  as often as the table holds it; and before truncation, that is for every \<open>n\<close> not below
  the number of passing records, it returns exactly all of them.
\<close>

theorem select_exact:
  "mset (get_top_engaging_posts (init E f) len tag n)
     \<subseteq># image_mset to_dict (filter_mset (spec_passes len tag) (mset (rows (df (init E f))))) \<and>
   (int (size (filter_mset (spec_passes len tag) (mset (rows (df (init E f)))))) \<le> n \<longrightarrow>
    mset (get_top_engaging_posts (init E f) len tag n)
      = image_mset to_dict (filter_mset (spec_passes len tag) (mset (rows (df (init E f))))))"
proof -
  let ?ms = "get_filtered_posts (init E f) len tag"
  let ?M = "image_mset to_dict (filter_mset (spec_passes len tag) (mset (rows (df (init E f)))))"
  have top: "get_top_engaging_posts (init E f) len tag n
               = slice_to (sorted_reverse d_engagement ?ms) n"
    by (rule get_top_engaging_posts_eq)
  have M: "mset (sorted_reverse d_engagement ?ms) = ?M"
    by (simp add: mset_sorted_reverse get_filtered_posts_init)
  have sub: "mset (get_top_engaging_posts (init E f) len tag n) \<subseteq># ?M"
    unfolding top using mset_slice_to_subset [of "sorted_reverse d_engagement ?ms" n] M
    by simp
  have all: "mset (get_top_engaging_posts (init E f) len tag n) = ?M"
    if "int (size (filter_mset (spec_passes len tag) (mset (rows (df (init E f)))))) \<le> n"
  proof -
    have "size ?M = length (sorted_reverse d_engagement ?ms)"
      using M by (metis size_mset)
    with that have "int (length (sorted_reverse d_engagement ?ms)) \<le> n" by simp
    then show ?thesis unfolding top using M by (simp add: slice_to_all)
  qed
  from sub all show ?thesis by blast
qed

theorem select_exact_witness:
  "map d_text (get_top_engaging_posts (init example_env example_corpus) ''Short'' ''AI'' 5)
     = [PStr ''B'', PStr ''A'', PStr ''C''] \<and>
   mset (get_top_engaging_posts (init example_env example_corpus) ''Short'' ''AI'' 5)
     = image_mset to_dict
         (filter_mset (spec_passes ''Short'' ''AI'')
            (mset (rows (df (init example_env example_corpus)))))"
proof -
  let ?M = "mset (rows (df (init example_env example_corpus)))"
  have "size ?M = 5" by (simp add: example_rows_length)
  moreover have "size (filter_mset (spec_passes ''Short'' ''AI'') ?M) \<le> size ?M"
    by (rule size_filter_mset_lesseq)
  ultimately have "int (size (filter_mset (spec_passes ''Short'' ''AI'') ?M)) \<le> 5"
    by simp
  with select_exact [of example_env example_corpus "''Short''" "''AI''" 5]
    example_short_ai_texts
  show ?thesis by blast
qed

subsection \<open>C2: descending engagement, ties in table order\<close>

text \<open>
  C2. For every table and every query, the output of \<^verbatim>\<open>get_top_engaging_posts\<close> is
  sorted by engagement in descending order; the returned records of any one engagement
  value are the first of the matching records of that value, in the order the matching
  records have; and the matching records stand in the order of the table.
\<close>

theorem ranked_descending_stable:
  "sorted_wrt (\<lambda>a b. b \<le> a) (map d_engagement (get_top_engaging_posts self len tag n)) \<and>
   prefix (filter (\<lambda>p. d_engagement p = e) (get_top_engaging_posts self len tag n))
          (filter (\<lambda>p. d_engagement p = e) (get_filtered_posts self len tag)) \<and>
   subseq (get_filtered_posts self len tag) (map to_dict (rows (df self)))"
proof -
  let ?ms = "get_filtered_posts self len tag"
  let ?out = "get_top_engaging_posts self len tag n"
  have top: "?out = slice_to (sorted_reverse d_engagement ?ms) n"
    by (rule get_top_engaging_posts_eq)
  have "prefix ?out (sorted_reverse d_engagement ?ms)"
    unfolding top by (rule slice_to_prefix)
  then obtain zs where zs: "sorted_reverse d_engagement ?ms = ?out @ zs"
    by (auto simp: prefix_def)
  have "sorted (rev (map d_engagement (sorted_reverse d_engagement ?ms)))"
    by (rule sorted_reverse_desc)
  then have "sorted_wrt (\<lambda>a b. b \<le> a) (map d_engagement (sorted_reverse d_engagement ?ms))"
    by (simp add: sorted_wrt_rev)
  then have desc: "sorted_wrt (\<lambda>a b. b \<le> a) (map d_engagement ?out)"
    unfolding zs by (simp add: sorted_wrt_append)
  have "prefix (filter (\<lambda>p. d_engagement p = e) ?out)
               (filter (\<lambda>p. d_engagement p = e) (sorted_reverse d_engagement ?ms))"
    unfolding zs by simp
  then have stab: "prefix (filter (\<lambda>p. d_engagement p = e) ?out)
                          (filter (\<lambda>p. d_engagement p = e) ?ms)"
    by (simp add: sorted_reverse_stable)
  have sub: "subseq ?ms (map to_dict (rows (df self)))"
    by (simp add: get_filtered_posts_def subseq_map)
  from desc stab sub show ?thesis by blast
qed

theorem ranked_descending_stable_witness:
  "map (\<lambda>p. (d_text p, d_engagement p))
     (get_top_engaging_posts (init example_env example_corpus) ''Short'' ''AI'' 3)
     = [(PStr ''B'', 50), (PStr ''A'', 10), (PStr ''C'', 10)] \<and>
   sorted_wrt (\<lambda>a b. b \<le> a)
     (map d_engagement
        (get_top_engaging_posts (init example_env example_corpus) ''Short'' ''AI'' 3)) \<and>
   prefix
     (filter (\<lambda>p. d_engagement p = 10)
        (get_top_engaging_posts (init example_env example_corpus) ''Short'' ''AI'' 3))
     (filter (\<lambda>p. d_engagement p = 10)
        (get_filtered_posts (init example_env example_corpus) ''Short'' ''AI'')) \<and>
   subseq (get_filtered_posts (init example_env example_corpus) ''Short'' ''AI'')
     (map to_dict (rows (df (init example_env example_corpus))))"
proof -
  have "map (\<lambda>p. (d_text p, d_engagement p))
     (get_top_engaging_posts (init example_env example_corpus) ''Short'' ''AI'' 3)
     = [(PStr ''B'', 50), (PStr ''A'', 10), (PStr ''C'', 10)]"
    by code_simp
  with ranked_descending_stable [of "init example_env example_corpus" "''Short''" "''AI''" 3 10]
  show ?thesis by blast
qed

subsection \<open>C3: the length categories\<close>

text \<open>
  C3, as amended. For every integer line count \<open>c\<close>, negative ones included,
  \<^verbatim>\<open>categorize_length\<close> returns Short iff \<open>c < 5\<close>, Medium iff \<open>5 \<le> c \<le> 10\<close> and Long iff
  \<open>c > 10\<close>; it returns Unknown iff the line count is missing (unset, or not numeric and
  so coerced to \<open>nan\<close> by the loader).
\<close>

theorem categorize_length_thresholds:
  "(categorize_length (Num c) = Inr ''Short'' \<longleftrightarrow> c < 5) \<and>
   (categorize_length (Num c) = Inr ''Medium'' \<longleftrightarrow> 5 \<le> c \<and> c \<le> 10) \<and>
   (categorize_length (Num c) = Inr ''Long'' \<longleftrightarrow> 10 < c) \<and>
   (categorize_length x = Inr ''Unknown'' \<longleftrightarrow> x = NaN)"
  by (cases x) auto

theorem categorize_length_thresholds_witness:
  "categorize_length (Num 4) = Inr ''Short'' \<and>
   categorize_length (Num 5) = Inr ''Medium'' \<and>
   categorize_length (Num 10) = Inr ''Medium'' \<and>
   categorize_length (Num 11) = Inr ''Long'' \<and>
   categorize_length NaN = Inr ''Unknown''"
  using categorize_length_thresholds [of 4 NaN] categorize_length_thresholds [of 5 NaN]
    categorize_length_thresholds [of 10 NaN] categorize_length_thresholds [of 11 NaN]
  by simp

text \<open>
  The claim as stated has Unknown for every input that is not a valid non-negative
  integer; the line count \<open>-1\<close> is none, and is Short.
\<close>

theorem negative_line_count_is_short: "categorize_length (Num (- 1)) = Inr ''Short''"
  by simp

subsection \<open>C4: truncation\<close>

text \<open>
  C4. For every table and every query with \<open>n \<ge> 0\<close>, \<^verbatim>\<open>get_top_engaging_posts\<close> returns at
  most \<open>n\<close> records; with \<open>n = 0\<close> it returns the empty sequence; and when \<open>n\<close> is not below
  the number of matching records, it returns all of them and nothing else.
\<close>

theorem truncation:
  "(0 \<le> n \<longrightarrow> int (length (get_top_engaging_posts self len tag n)) \<le> n) \<and>
   get_top_engaging_posts self len tag 0 = [] \<and>
   (int (length (get_filtered_posts self len tag)) \<le> n \<longrightarrow>
      mset (get_top_engaging_posts self len tag n) = mset (get_filtered_posts self len tag))"
proof -
  let ?ms = "get_filtered_posts self len tag"
  have top: "get_top_engaging_posts self len tag n
               = slice_to (sorted_reverse d_engagement ?ms) n" for n
    by (rule get_top_engaging_posts_eq)
  have a: "int (length (get_top_engaging_posts self len tag n)) \<le> n" if "0 \<le> n"
    using that unfolding top by (simp add: slice_to_def)
  have b: "get_top_engaging_posts self len tag 0 = []"
    unfolding top by (simp add: slice_to_def)
  have c: "mset (get_top_engaging_posts self len tag n) = mset ?ms" if "int (length ?ms) \<le> n"
    using that unfolding top
    by (simp add: slice_to_all length_sorted_reverse mset_sorted_reverse)
  from a b c show ?thesis by blast
qed

theorem truncation_witness:
  "length (get_filtered_posts (init example_env example_corpus) ''Short'' ''AI'') = 3 \<and>
   int (length (get_top_engaging_posts (init example_env example_corpus) ''Short'' ''AI'' 2))
     \<le> 2 \<and>
   get_top_engaging_posts (init example_env example_corpus) ''Short'' ''AI'' 0 = [] \<and>
   mset (get_top_engaging_posts (init example_env example_corpus) ''Short'' ''AI'' 4)
     = mset (get_filtered_posts (init example_env example_corpus) ''Short'' ''AI'')"
proof -
  have len: "length (get_filtered_posts (init example_env example_corpus) ''Short'' ''AI'') = 3"
    by code_simp
  then have "int (length (get_filtered_posts (init example_env example_corpus)
                 ''Short'' ''AI'')) \<le> 4"
    by simp
  with len truncation [of 2 "init example_env example_corpus" "''Short''" "''AI''"]
    truncation [of 4 "init example_env example_corpus" "''Short''" "''AI''"]
  show ?thesis by simp
qed

subsection \<open>C5: a corpus that cannot be loaded\<close>

text \<open>
  C5. When the corpus file is missing, cannot be read or is not valid JSON, the
  constructor returns (no exception reaches the caller) with an empty table that has the
  full column schema; afterwards \<^verbatim>\<open>get_tags\<close> returns the empty list and
  \<^verbatim>\<open>get_top_engaging_posts\<close> returns the empty list for every query.
\<close>

theorem unavailable_corpus_gives_empty_table:
  assumes "f = NoSuchFile \<or> f = Unreadable \<or> f = Readable NotJson"
  shows "rows (df (init E f)) = [] \<and>
         columns (df (init E f)) =
           [''text'', ''line_count'', ''tags'', ''language'', ''length'', ''engagement''] \<and>
         get_tags (init E f) = [] \<and>
         get_top_engaging_posts (init E f) len tag n = []"
proof -
  from assms have "init E f = \<lparr>df = empty_frame, unique_tags = []\<rparr>"
    by (auto simp: init_def load_posts_def)
  then show ?thesis
    by (simp add: get_tags_def get_top_engaging_posts_empty_frame) (simp add: empty_frame_def)
qed

theorem unavailable_corpus_witness:
  "load_posts example_env NoSuchFile = Inl FileNotFoundError \<and>
   load_posts example_env Unreadable = Inl OSError \<and>
   init example_env NoSuchFile = \<lparr>df = empty_frame, unique_tags = []\<rparr> \<and>
   rows (df (init example_env NoSuchFile)) = [] \<and>
   columns (df (init example_env NoSuchFile)) =
     [''text'', ''line_count'', ''tags'', ''language'', ''length'', ''engagement''] \<and>
   get_tags (init example_env NoSuchFile) = [] \<and>
   get_top_engaging_posts (init example_env NoSuchFile) ''Short'' ''AI'' 2 = [] \<and>
   get_tags (init example_env Unreadable) = [] \<and>
   get_top_engaging_posts (init example_env Unreadable) ''Short'' ''AI'' 2 = [] \<and>
   get_tags (init example_env (Readable NotJson)) = [] \<and>
   get_top_engaging_posts (init example_env (Readable NotJson)) ''Short'' ''AI'' 2 = []"
proof -
  have raised: "load_posts example_env NoSuchFile = Inl FileNotFoundError"
    "load_posts example_env Unreadable = Inl OSError"
    by (simp_all add: load_posts_def)
  then have "init example_env NoSuchFile = \<lparr>df = empty_frame, unique_tags = []\<rparr>"
    by (simp add: init_def)
  with raised
    unavailable_corpus_gives_empty_table [of NoSuchFile example_env "''Short''" "''AI''" 2]
    unavailable_corpus_gives_empty_table [of Unreadable example_env "''Short''" "''AI''" 2]
    unavailable_corpus_gives_empty_table [of "Readable NotJson" example_env "''Short''" "''AI''" 2]
  show ?thesis by simp
qed

subsection \<open>C6: the tags of a loaded record\<close>

text \<open>
  C6, as amended. For every loaded record the tags field is a list: a source tags value
  that is a list is kept as it is, entries that are no strings included; a source tags
  value that is no list (the scalar \<^verbatim>\<open>"AI"\<close>, a null, no value at all) becomes the
  empty list at load time. Every record a tag-filtered selection returns has the tag in
  its list, so a record whose source tags value is no list is in none. (Entries that are
  no strings are dropped from the tag index only; see C8.)
\<close>

theorem tags_kept_as_lists:
  assumes "load_posts E (Readable (Json posts)) = Inr self"
  shows "length (rows (df self)) = length posts \<and>
         (\<forall>i<length posts.
            r_tags (rows (df self) ! i) =
              (case map_of (posts ! i) ''tags'' of
                 Some (PList ts) \<Rightarrow> PList ts
               | _ \<Rightarrow> PList [])) \<and>
         (\<forall>d\<in>set (get_top_engaging_posts self len tag n).
            \<exists>ts. d_tags d = PList ts \<and> PStr tag \<in> set ts)"
  using load_posts_rows(1,2) [OF assms] get_top_engaging_posts_tagged [of _ self len tag n]
  by (auto simp: tags_cell_source)

theorem tags_kept_as_lists_witness:
  "length (rows (df (init example_env (Readable (Json untidy_posts))))) = 3 \<and>
   r_tags (rows (df (init example_env (Readable (Json untidy_posts)))) ! 0) = PList [] \<and>
   r_tags (rows (df (init example_env (Readable (Json untidy_posts)))) ! 2)
     = PList [PStr ''AI''] \<and>
   map d_text
     (get_top_engaging_posts (init example_env (Readable (Json untidy_posts))) ''Short'' ''AI'' 3)
     = [PStr ''N'', PStr ''M''] \<and>
   (\<exists>ts. d_tags (hd (get_top_engaging_posts (init example_env (Readable (Json untidy_posts)))
                        ''Short'' ''AI'' 3)) = PList ts \<and> PStr ''AI'' \<in> set ts)"
proof -
  let ?out = "get_top_engaging_posts (init example_env (Readable (Json untidy_posts)))
                ''Short'' ''AI'' 3"
  have m0: "map_of (untidy_posts ! 0) ''tags'' = Some (PStr ''AI'')"
    by (simp add: untidy_posts_def)
  have m2: "map_of (untidy_posts ! 2) ''tags'' = Some (PList [PStr ''AI''])"
    by (simp add: untidy_posts_def)
  have out: "map d_text ?out = [PStr ''N'', PStr ''M'']"
    by code_simp
  then have "?out \<noteq> []" by auto
  then have hd: "hd ?out \<in> set ?out" by simp
  from tags_kept_as_lists [OF untidy_load, of "''Short''" "''AI''" 3]
  have "length (rows (df (init example_env (Readable (Json untidy_posts))))) = length untidy_posts"
    and "\<forall>i<length untidy_posts.
            r_tags (rows (df (init example_env (Readable (Json untidy_posts)))) ! i) =
              (case map_of (untidy_posts ! i) ''tags'' of
                 Some (PList ts) \<Rightarrow> PList ts
               | _ \<Rightarrow> PList [])"
    and "\<forall>d\<in>set ?out. \<exists>ts. d_tags d = PList ts \<and> PStr ''AI'' \<in> set ts"
    by blast+
  with m0 m2 out hd show ?thesis
    by (simp add: untidy_posts_length)
qed

text \<open>
  The claim as stated has every entry of a loaded tags field a string. The second untidy
  post has the tags \<^verbatim>\<open>[1, "AI"]\<close>: the integer stays in the loaded record, and in the
  record a selection returns.
\<close>

theorem non_string_tag_is_kept:
  "map r_tags (rows (df (init example_env (Readable (Json untidy_posts)))))
     = [PList [], PList [PInt 1, PStr ''AI''], PList [PStr ''AI'']] \<and>
   map d_tags
     (get_top_engaging_posts (init example_env (Readable (Json untidy_posts))) ''Short'' ''AI'' 1)
     = [PList [PStr ''AI'']] \<and>
   map d_tags
     (get_top_engaging_posts (init example_env (Readable (Json untidy_posts))) ''Short'' ''AI'' 2)
     = [PList [PStr ''AI''], PList [PInt 1, PStr ''AI'']]"
  by code_simp

subsection \<open>C7: the engagement of a loaded record\<close>

text \<open>
  C7, as amended. For every loaded record the engagement field is an integer, and one
  that fits 64 bits. A source value that is absent, null or not numeric (a list, or a
  string pandas reads no finite number from) becomes 0 at load time. A source integer of
  magnitude up to \<open>2\<^sup>5\<^sup>3\<close>, which pandas holds exactly in a column of either type, is
  stored as it is, a negative one included; of a string and of a larger integer, the
  64-bit value of the number pandas reads is stored. So the stored value is at least 0
  whenever the number pandas reads from the source is a 64-bit one that is not negative.
\<close>

theorem engagement_coerced:
  assumes "load_posts E (Readable (Json posts)) = Inr self" and "i < length posts"
  shows "r_engagement (rows (df self) ! i) =
           (case map_of (posts ! i) ''engagement'' of
              Some (PInt n) \<Rightarrow>
                (if \<bar>n\<bar> \<le> 2 ^ 53 then n
                 else (case str_to_num E ''engagement'' (column_cells posts ''engagement'')
                              (PInt n) of
                         Num m \<Rightarrow> astype_int64 m
                       | _ \<Rightarrow> 0))
            | Some (PBool b) \<Rightarrow> (if b then 1 else 0)
            | Some (PStr s) \<Rightarrow>
                (case str_to_num E ''engagement'' (column_cells posts ''engagement'')
                        (PStr s) of
                   Num m \<Rightarrow> astype_int64 m
                 | _ \<Rightarrow> 0)
            | _ \<Rightarrow> 0) \<and>
         - (2 ^ 63) \<le> r_engagement (rows (df self) ! i) \<and>
         r_engagement (rows (df self) ! i) < 2 ^ 63 \<and>
         ((\<forall>n. to_numeric E ''engagement'' (column_cells posts ''engagement'')
                 (cell (posts ! i) ''engagement'') = Num n \<longrightarrow> 0 \<le> n \<and> n < 2 ^ 63) \<longrightarrow>
            0 \<le> r_engagement (rows (df self) ! i))"
proof -
  let ?cols = "json_normalize_columns posts"
  let ?r = "r_engagement (rows (df self) ! i)"
  have p: "posts ! i \<in> set posts" using assms(2) by simp
  have cell: "engagement_cell E ?cols posts (posts ! i) = Inr ?r"
    using load_posts_rows(3) [OF assms(1)] assms(2) by simp
  have eq: "?r =
           (case map_of (posts ! i) ''engagement'' of
              Some (PInt n) \<Rightarrow>
                (if \<bar>n\<bar> \<le> 2 ^ 53 then n
                 else (case str_to_num E ''engagement'' (column_cells posts ''engagement'')
                              (PInt n) of
                         Num m \<Rightarrow> astype_int64 m
                       | _ \<Rightarrow> 0))
            | Some (PBool b) \<Rightarrow> (if b then 1 else 0)
            | Some (PStr s) \<Rightarrow>
                (case str_to_num E ''engagement'' (column_cells posts ''engagement'')
                        (PStr s) of
                   Num m \<Rightarrow> astype_int64 m
                 | _ \<Rightarrow> 0)
            | _ \<Rightarrow> 0)"
    using p cell by (rule engagement_cell_source)
  have range: "- (2 ^ 63) \<le> ?r \<and> ?r < 2 ^ 63"
    using cell by (rule engagement_cell_range)
  have nonneg: "0 \<le> ?r"
    if "\<forall>n. to_numeric E ''engagement'' (column_cells posts ''engagement'')
              (cell (posts ! i) ''engagement'') = Num n \<longrightarrow> 0 \<le> n \<and> n < 2 ^ 63"
    using cell that
    by (cases "to_numeric E ''engagement'' (column_cells posts ''engagement'')
                 (cell (posts ! i) ''engagement'')")
       (auto simp: engagement_cell_def astype_int64_in_range split: if_splits)
  from eq range nonneg show ?thesis by blast
qed

theorem engagement_coerced_witness:
  "r_engagement (rows (df (init example_env (Readable (Json untidy_posts)))) ! 0) = 0 \<and>
   r_engagement (rows (df (init example_env (Readable (Json untidy_posts)))) ! 1) = - 5 \<and>
   r_engagement (rows (df (init example_env (Readable (Json untidy_posts)))) ! 2) = 0"
proof -
  have i: "(0::nat) < length untidy_posts" "(1::nat) < length untidy_posts"
    "(2::nat) < length untidy_posts"
    by (simp_all add: untidy_posts_length)
  have m: "map_of (untidy_posts ! 0) ''engagement'' = Some PNone"
    "map_of (untidy_posts ! 1) ''engagement'' = Some (PInt (- 5))"
    "map_of (untidy_posts ! 2) ''engagement'' = None"
    by (simp_all add: untidy_posts_def)
  from engagement_coerced [OF untidy_load i(1)] engagement_coerced [OF untidy_load i(2)]
    engagement_coerced [OF untidy_load i(3)]
  show ?thesis using m by simp
qed

text \<open>
  The claim as stated has every stored engagement at least 0. A source engagement of
  \<open>-5\<close> is stored as \<open>-5\<close>.
\<close>

theorem negative_engagement_is_kept:
  "map r_engagement
     (rows (df (init example_env (Readable (Json [[(''engagement'', PInt (- 5))]])))))
     = [- 5]"
  by code_simp

subsection \<open>C8: the tag index\<close>

text \<open>
  C8. After every load, whatever order Python iterates the set of tags in,
  \<^verbatim>\<open>get_tags\<close> returns the list, sorted in the order of the strings and without
  duplicates, of every string that is an entry of the tags list of some loaded record;
  entries that are no strings are not in it. The index is a field of the loaded object
  that \<^verbatim>\<open>load_posts\<close> alone writes: \<^verbatim>\<open>get_tags\<close> reads it, and the selector returns
  records and no new object.
\<close>

theorem tag_index_sorted_distinct_union:
  assumes "set_order_ok E"
  shows "sorted (get_tags (init E f)) \<and> distinct (get_tags (init E f)) \<and>
         set (get_tags (init E f)) =
           {t. \<exists>r\<in>set (rows (df (init E f))). \<exists>ts. r_tags r = PList ts \<and> PStr t \<in> set ts}"
proof -
  let ?rs = "rows (df (init E f))"
  let ?all = "concat (map (\<lambda>r. sublist_tags (r_tags r)) ?rs)"
  have all: "set ?all = {t. \<exists>r\<in>set ?rs. \<exists>ts. r_tags r = PList ts \<and> PStr t \<in> set ts}"
    by (auto simp: set_sublist_tags)
  from assms have ok: "distinct (set_order E ?all)" "set (set_order E ?all) = set ?all"
    by (simp_all add: set_order_ok_def)
  from unique_tags_init [of E f] show ?thesis
  proof (elim disjE)
    assume "unique_tags (init E f) = [] \<and> ?rs = []"
    then show ?thesis by (simp add: get_tags_def)
  next
    assume "unique_tags (init E f) = sort (set_order E ?all)"
    then show ?thesis using ok all by (simp add: get_tags_def)
  next
    assume "unique_tags (init E f) = [] \<and> (\<forall>r\<in>set ?rs. r_tags r = PList [])"
    then show ?thesis by (auto simp: get_tags_def)
  qed
qed

theorem tag_index_witness:
  "get_tags (init example_env example_corpus) = [''AI'', ''ML''] \<and>
   get_tags (init example_env (Readable (Json untidy_posts))) = [''AI''] \<and>
   sorted (get_tags (init example_env example_corpus)) \<and>
   distinct (get_tags (init example_env example_corpus)) \<and>
   set (get_tags (init example_env example_corpus)) =
     {t. \<exists>r\<in>set (rows (df (init example_env example_corpus))).
           \<exists>ts. r_tags r = PList ts \<and> PStr t \<in> set ts}"
proof -
  have "get_tags (init example_env example_corpus) = [''AI'', ''ML'']"
    by code_simp
  moreover have "get_tags (init example_env (Readable (Json untidy_posts))) = [''AI'']"
    by code_simp
  ultimately show ?thesis
    using tag_index_sorted_distinct_union [OF example_env_ok, of example_corpus]
    by blast
qed

subsection \<open>C9: loading is deterministic\<close>

text \<open>
  C9. Two loads of the same file contents, each with its own order of set iteration
  (the one thing that varies between two runs of the interpreter), yield the same tag
  index and the same result of \<^verbatim>\<open>get_top_engaging_posts\<close> for every query.
\<close>

theorem loading_is_deterministic:
  assumes "set_order_ok E" "set_order_ok E'" "str_to_num E' = str_to_num E"
  shows "get_tags (init E' f) = get_tags (init E f) \<and>
         get_top_engaging_posts (init E' f) len tag n
           = get_top_engaging_posts (init E f) len tag n"
  by (simp add: init_def load_posts_order_free [OF assms])

theorem loading_is_deterministic_witness:
  "set_order example_env_rev [''AI'', ''ML''] \<noteq> set_order example_env [''AI'', ''ML''] \<and>
   get_tags (init example_env_rev example_corpus) = get_tags (init example_env example_corpus) \<and>
   get_top_engaging_posts (init example_env_rev example_corpus) ''Short'' ''AI'' 2
     = get_top_engaging_posts (init example_env example_corpus) ''Short'' ''AI'' 2"
proof -
  have "str_to_num example_env_rev = str_to_num example_env"
    by (simp add: example_env_def example_env_rev_def)
  from loading_is_deterministic [OF example_env_ok example_env_rev_ok this,
      of example_corpus "''Short''" "''AI''" 2]
  show ?thesis by (simp add: example_env_def example_env_rev_def)
qed

subsection \<open>C10: a negative n\<close>

text \<open>
  C10. For every table and every negative \<open>n\<close>, \<^verbatim>\<open>get_top_engaging_posts\<close> does not
  raise: it returns the ranked matching records without the last \<open>|n|\<close> of them, and so
  the empty sequence exactly when \<open>|n|\<close> is at least the number of matching records.
\<close>

theorem negative_n_drops_last:
  "n < 0 \<Longrightarrow>
   get_top_engaging_posts self len tag n =
     take (length (get_filtered_posts self len tag) - nat (- n))
       (sorted_reverse d_engagement (get_filtered_posts self len tag)) \<and>
   (get_top_engaging_posts self len tag n = [] \<longleftrightarrow>
      length (get_filtered_posts self len tag) \<le> nat (- n))"
proof -
  assume n: "n < 0"
  let ?ms = "get_filtered_posts self len tag"
  have k: "nat (int (length ?ms) + n) = length ?ms - nat (- n)" using n by linarith
  have top: "get_top_engaging_posts self len tag n
        = take (length ?ms - nat (- n)) (sorted_reverse d_engagement ?ms)"
    using n by (simp add: get_top_engaging_posts_eq slice_to_def length_sorted_reverse k)
  have "sorted_reverse d_engagement ?ms = [] \<longleftrightarrow> ?ms = []"
    using length_sorted_reverse [of d_engagement ?ms] by (metis length_0_conv)
  then show ?thesis unfolding top
    by (auto simp: take_eq_Nil)
qed

theorem negative_n_witness:
  "map d_text (get_top_engaging_posts (init example_env example_corpus) ''Short'' ''AI'' (- 1))
     = [PStr ''B'', PStr ''A''] \<and>
   get_top_engaging_posts (init example_env example_corpus) ''Short'' ''AI'' (- 1) =
     take (length (get_filtered_posts (init example_env example_corpus) ''Short'' ''AI'')
             - nat (- (- 1)))
       (sorted_reverse d_engagement
          (get_filtered_posts (init example_env example_corpus) ''Short'' ''AI'')) \<and>
   get_top_engaging_posts (init example_env example_corpus) ''Short'' ''AI'' (- 3) = []"
proof -
  have neg: "(- 1 :: int) < 0" "(- 3 :: int) < 0" by simp_all
  have len: "length (get_filtered_posts (init example_env example_corpus) ''Short'' ''AI'') = 3"
    by code_simp
  have texts: "map d_text
      (get_top_engaging_posts (init example_env example_corpus) ''Short'' ''AI'' (- 1))
     = [PStr ''B'', PStr ''A'']"
    by code_simp
  from negative_n_drops_last [OF neg(1), of "init example_env example_corpus" "''Short''" "''AI''"]
    negative_n_drops_last [OF neg(2), of "init example_env example_corpus" "''Short''" "''AI''"]
    len texts
  show ?thesis by simp
qed

end
